theory Spec2Isabelle
  imports Main "HOL-Library.Sublist" "HOL-Library.Multiset"
begin

section \<open>The user administration page (src/pages/dashboard/csms/users.tsx)\<close>

text \<open>
  The page is one React function component. Its state is six \<^verbatim>\<open>useState\<close> cells; the
  list that is rendered, \<^verbatim>\<open>filteredUser\<close>, is recomputed from the state on every
  render; the handlers replace state cells and issue HTTP requests through an Axios
  instance. The embedding keeps the state as a record, the derived list as a function
  of the state, and every handler as a function from the state to the new state and
  the list of effects (requests, console output, navigation) the handler produced, in
  the order in which it produced them. What the network answers is an argument of the
  handler.
\<close>

subsection \<open>Data\<close>

text \<open>
  \<^verbatim>\<open>User\<close> (imported from \<^verbatim>\<open>@/types/user\<close>; its five fields are the ones the
  component writes in its object literals). The field \<^verbatim>\<open>id\<close> is a JavaScript number
  holding an integer; it is modelled as \<open>int\<close>, and named \<open>id_field\<close> because
  \<open>id\<close> is the identity function of HOL. The component copies and compares ids and
  writes them into URLs; only the last depends on how large the number is, see
  \<open>number_toString\<close>.
\<close>

record User =
  id_field :: int
  fullName :: string
  mobileNumber :: string
  email :: string
  roles :: string

text \<open>The values a property of a \<^verbatim>\<open>User\<close> object can hold.\<close>

datatype js_value = JNumber int | JString string

text \<open>
  A \<^verbatim>\<open>User\<close> object seen as JavaScript sees it: a finite map from property names to
  values. \<open>None\<close> is a property the object does not have (\<^verbatim>\<open>undefined\<close> when read).
  This is what \<^verbatim>\<open>a[field]\<close> reads and what Axios serialises as a request body.
\<close>

definition user_object :: "User \<Rightarrow> string \<rightharpoonup> js_value" where
  "user_object u =
     [''id'' \<mapsto> JNumber (id_field u),
      ''fullName'' \<mapsto> JString (fullName u),
      ''mobileNumber'' \<mapsto> JString (mobileNumber u),
      ''email'' \<mapsto> JString (email u),
      ''roles'' \<mapsto> JString (roles u)]"

text \<open>
  \<^verbatim>\<open>sortOrder\<close>: \<^verbatim>\<open>{ field, order }\<close>. At run time both are whatever
  \<^verbatim>\<open>handleSortChange\<close> split off the selected option's value; \<open>order = None\<close> is
  \<^verbatim>\<open>undefined\<close> (a value without a dash).
\<close>

record sort_order =
  field :: string
  order :: "string option"

text \<open>The six state cells of the component.\<close>

record component =
  users :: "User list"
  newUser :: User
  editUser :: "User option"
  showForm :: bool
  searchQuery :: string
  sortOrder :: sort_order

text \<open>
  The object literal \<^verbatim>\<open>{ fullName: '', mobileNumber: '', email: '', roles: '', id: 0 }\<close>
  that initialises and resets the draft.
\<close>

definition emptyUser :: User where
  "emptyUser = \<lparr>id_field = 0, fullName = [], mobileNumber = [], email = [], roles = []\<rparr>"

definition initialState :: component where
  "initialState =
     \<lparr>users = [], newUser = emptyUser, editUser = None, showForm = False,
      searchQuery = [], sortOrder = \<lparr>field = ''fullName'', order = Some ''asc''\<rparr>\<rparr>"

definition apiUrl :: string where
  "apiUrl = ''/users''"

subsection \<open>Effects and the answers of the network\<close>

datatype http_method = GET | POST | PUT | DELETE

text \<open>
  A value thrown by a rejected request. The component reads one thing of it,
  \<^verbatim>\<open>error.response?.status\<close>; \<open>None\<close> is an error without a response or without a
  status.
\<close>

datatype request_error = RequestError (message: string) (response_status: "int option")

text \<open>What an awaited request does: it resolves with a value or rejects with an error.\<close>

datatype 'a outcome = Resolved 'a | Rejected request_error

datatype effect =
    Request http_method string "User option"
  | ConsoleError string request_error
  | RouterPush string

subsection \<open>Built-in string operations\<close>

text \<open>
  \<^verbatim>\<open>String.prototype.includes\<close>: the argument occurs as a contiguous run of the
  receiver.
\<close>

fun includes_str :: "string \<Rightarrow> string \<Rightarrow> bool" where
  "includes_str [] q = (q = [])"
| "includes_str (c # cs) q = (prefix q (c # cs) \<or> includes_str cs q)"

text \<open>
  \<^verbatim>\<open>String.prototype.split\<close> with a one-character separator: the pieces between the
  separators, at least one piece.
\<close>

fun split_str :: "char \<Rightarrow> string \<Rightarrow> string list" where
  "split_str sep [] = [[]]"
| "split_str sep (c # cs) =
     (if c = sep then [] # split_str sep cs
      else (case split_str sep cs of
              [] \<Rightarrow> [[c]]
            | p # ps \<Rightarrow> (c # p) # ps))"

text \<open>
  The text of a number in a template literal (\<^verbatim>\<open>`${apiUrl}/${id}`\<close>), for a number
  that holds an integer. Below 1e21 in magnitude it is the decimal numeral: a minus sign
  for a negative number, then the digits, without leading zeros. From 1e21 on it is in
  exponent notation (\<^verbatim>\<open>1e+21\<close>), with the shortest digits that identify the
  floating-point value; that part depends on the number's binary representation and is
  an argument, \<open>exponent\<close>, of every function that writes a number.
\<close>

fun digits_of_nat :: "nat \<Rightarrow> string" where
  "digits_of_nat n =
     (if n < 10 then [''0123456789'' ! n]
      else digits_of_nat (n div 10) @ [''0123456789'' ! (n mod 10)])"

declare digits_of_nat.simps [simp del]

definition decimal_of_int :: "int \<Rightarrow> string" where
  "decimal_of_int i =
     (if i < 0 then CHR ''-'' # digits_of_nat (nat (- i)) else digits_of_nat (nat i))"

definition number_toString :: "(int \<Rightarrow> string) \<Rightarrow> int \<Rightarrow> string" where
  "number_toString exponent i =
     (if \<bar>i\<bar> < 1000000000000000000000 then decimal_of_int i else exponent i)"





text \<open>
  \<^verbatim>\<open>Array.prototype.sort\<close> with a comparator. The language fixes the result for a
  consistent comparator: the stable ordering of the elements. Insertion from the right
  end computes it: an element goes in front of the first element it does not compare
  greater than, so it stays in front of the later elements it compares equal to.
\<close>

fun insert_cmp :: "('a \<Rightarrow> 'a \<Rightarrow> int) \<Rightarrow> 'a \<Rightarrow> 'a list \<Rightarrow> 'a list" where
  "insert_cmp cmp x [] = [x]"
| "insert_cmp cmp x (y # ys) =
     (if cmp x y \<le> 0 then x # y # ys else y # insert_cmp cmp x ys)"

definition sort_cmp :: "('a \<Rightarrow> 'a \<Rightarrow> int) \<Rightarrow> 'a list \<Rightarrow> 'a list" where
  "sort_cmp cmp xs = foldr (insert_cmp cmp) xs []"

text \<open>
  Two string operations depend on tables that are not part of the program:
  \<^verbatim>\<open>toLowerCase\<close> (the Unicode case mapping) and \<^verbatim>\<open>localeCompare\<close> (the
  collation of the browser's locale). They are arguments of the functions that call
  them. For concrete runs there is an instance of each on ASCII text: letters
  \<^verbatim>\<open>A\<close> to \<^verbatim>\<open>Z\<close> mapped to \<^verbatim>\<open>a\<close> to \<^verbatim>\<open>z\<close>, and the comparison of
  the lower-cased strings by character code.
\<close>

definition ascii_lower_char :: "char \<Rightarrow> char" where
  "ascii_lower_char c =
     (case map_of (zip ''ABCDEFGHIJKLMNOPQRSTUVWXYZ'' ''abcdefghijklmnopqrstuvwxyz'') c of
        Some l \<Rightarrow> l
      | None \<Rightarrow> c)"

definition ascii_toLowerCase :: "string \<Rightarrow> string" where
  "ascii_toLowerCase s = map ascii_lower_char s"

fun codes_compare :: "nat list \<Rightarrow> nat list \<Rightarrow> int" where
  "codes_compare [] [] = 0"
| "codes_compare [] (y # ys) = - 1"
| "codes_compare (x # xs) [] = 1"
| "codes_compare (x # xs) (y # ys) =
     (if x < y then - 1 else if y < x then 1 else codes_compare xs ys)"

definition ascii_localeCompare :: "string \<Rightarrow> string \<Rightarrow> int" where
  "ascii_localeCompare a b =
     codes_compare (map of_char (ascii_toLowerCase a)) (map of_char (ascii_toLowerCase b))"

text \<open>
  What the sort relies on: the comparator orders its arguments the same way in both
  directions and transitively.
\<close>

definition consistent_comparator :: "('a \<Rightarrow> 'a \<Rightarrow> int) \<Rightarrow> bool" where
  "consistent_comparator cmp \<longleftrightarrow>
     (\<forall>x y. (cmp x y < 0) = (0 < cmp y x)) \<and>
     (\<forall>x y z. cmp x y \<le> 0 \<longrightarrow> cmp y z \<le> 0 \<longrightarrow> cmp x z \<le> 0)"

subsection \<open>The derived list\<close>

text \<open>The predicate of \<^verbatim>\<open>.filter\<close> (lines 37 to 43).\<close>

definition matchesQuery :: "(string \<Rightarrow> string) \<Rightarrow> string \<Rightarrow> User \<Rightarrow> bool" where
  "matchesQuery toLowerCase searchQuery' user =
     (let query = toLowerCase searchQuery' in
        includes_str (toLowerCase (fullName user)) query \<or>
        includes_str (toLowerCase (email user)) query)"

text \<open>
  The comparator of \<^verbatim>\<open>.sort\<close> (lines 44 to 56): \<^verbatim>\<open>localeCompare\<close> when both
  properties are strings, the difference when both are numbers, \<open>0\<close> otherwise.
\<close>

definition compareUsers ::
  "(string \<Rightarrow> string \<Rightarrow> int) \<Rightarrow> sort_order \<Rightarrow> User \<Rightarrow> User \<Rightarrow> int" where
  "compareUsers localeCompare so a b =
     (case (user_object a (field so), user_object b (field so)) of
        (Some (JString x), Some (JString y)) \<Rightarrow>
          (if order so = Some ''asc'' then localeCompare x y else localeCompare y x)
      | (Some (JNumber x), Some (JNumber y)) \<Rightarrow>
          (if order so = Some ''asc'' then x - y else y - x)
      | _ \<Rightarrow> 0)"

definition filteredUser ::
  "(string \<Rightarrow> string) \<Rightarrow> (string \<Rightarrow> string \<Rightarrow> int) \<Rightarrow> component \<Rightarrow> User list" where
  "filteredUser toLowerCase localeCompare s =
     sort_cmp (compareUsers localeCompare (sortOrder s))
       (filter (matchesQuery toLowerCase (searchQuery s)) (users s))"

subsection \<open>The handlers\<close>

text \<open>
  Each asynchronous handler is given the outcome of every request it awaits and is run
  to its end. A handler's result is the state after it and the effects it produced.
\<close>

definition fetchUsers :: "User list outcome \<Rightarrow> component \<Rightarrow> component \<times> effect list" where
  "fetchUsers response s =
     (case response of
        Resolved data \<Rightarrow> (s\<lparr>users := data\<rparr>, [Request GET apiUrl None])
      | Rejected error \<Rightarrow>
          (s, [Request GET apiUrl None, ConsoleError ''Error fetching users:'' error] @
              (if response_status error = Some 401 then [RouterPush ''/login''] else [])))"

text \<open>
  \<^verbatim>\<open>createUser\<close>: the call of \<^verbatim>\<open>fetchUsers\<close> is not awaited; it sends its request
  at once and writes \<^verbatim>\<open>users\<close> when the answer arrives, which touches no cell that
  \<^verbatim>\<open>setShowForm\<close> writes.
\<close>

definition createUser ::
  "'a outcome \<Rightarrow> User list outcome \<Rightarrow> component \<Rightarrow> component \<times> effect list" where
  "createUser posted fetched s =
     (case posted of
        Resolved _ \<Rightarrow>
          (let s1 = s\<lparr>newUser := emptyUser\<rparr>;
               (s2, fx) = fetchUsers fetched s1;
               s3 = s2\<lparr>showForm := False\<rparr>
           in (s3, Request POST apiUrl (Some (newUser s)) # fx))
      | Rejected error \<Rightarrow>
          (s, [Request POST apiUrl (Some (newUser s)),
               ConsoleError ''Error creating user:'' error]))"

definition updateUser ::
  "(int \<Rightarrow> string) \<Rightarrow> 'a outcome \<Rightarrow> User list outcome \<Rightarrow> component \<Rightarrow> component \<times> effect list" where
  "updateUser exponent put fetched s =
     (case editUser s of
        None \<Rightarrow> (s, [])
      | Some edited \<Rightarrow>
          (let url = apiUrl @ ''/'' @ number_toString exponent (id_field edited) in
           case put of
             Resolved _ \<Rightarrow>
               (let s1 = s\<lparr>editUser := None\<rparr>;
                    (s2, fx) = fetchUsers fetched s1;
                    s3 = s2\<lparr>showForm := False\<rparr>
                in (s3, Request PUT url (Some edited) # fx))
           | Rejected error \<Rightarrow>
               (s, [Request PUT url (Some edited),
                    ConsoleError ''Error updating user:'' error])))"

definition deleteUser ::
  "(int \<Rightarrow> string) \<Rightarrow> int \<Rightarrow> 'a outcome \<Rightarrow> User list outcome \<Rightarrow> component \<Rightarrow> component \<times> effect list" where
  "deleteUser exponent id' deleted fetched s =
     (let url = apiUrl @ ''/'' @ number_toString exponent id' in
      case deleted of
        Resolved _ \<Rightarrow>
          (let (s1, fx) = fetchUsers fetched s in (s1, Request DELETE url None # fx))
      | Rejected error \<Rightarrow>
          (s, [Request DELETE url None, ConsoleError ''Error deleting user:'' error]))"

definition handleEditClick :: "User \<Rightarrow> component \<Rightarrow> component" where
  "handleEditClick user s = s\<lparr>editUser := Some user, showForm := True\<rparr>"

definition handleAddClick :: "component \<Rightarrow> component" where
  "handleAddClick s = s\<lparr>editUser := None, showForm := True\<rparr>"

definition handleCancelClick :: "component \<Rightarrow> component" where
  "handleCancelClick s = s\<lparr>editUser := None, newUser := emptyUser, showForm := False\<rparr>"

definition handleSearchChange :: "string \<Rightarrow> component \<Rightarrow> component" where
  "handleSearchChange v s = s\<lparr>searchQuery := v\<rparr>"

text \<open>
  \<^verbatim>\<open>handleSortChange\<close>: the destructuring takes the first two pieces of the split
  value; a piece that is not there is \<^verbatim>\<open>undefined\<close>. The split has at least one
  piece, so the first case below never runs.
\<close>

definition handleSortChange :: "string \<Rightarrow> component \<Rightarrow> component" where
  "handleSortChange v s =
     (case split_str CHR ''-'' v of
        [] \<Rightarrow> s
      | [field'] \<Rightarrow> s\<lparr>sortOrder := \<lparr>field = field', order = None\<rparr>\<rparr>
      | field' # order' # _ \<Rightarrow> s\<lparr>sortOrder := \<lparr>field = field', order = Some order'\<rparr>\<rparr>)"

text \<open>
  The \<^verbatim>\<open>onChange\<close> handlers of the three form inputs (lines 168 to 192): each writes
  one field of the record being edited, or of the draft when nothing is being edited.
\<close>

definition onChangeFullName :: "string \<Rightarrow> component \<Rightarrow> component" where
  "onChangeFullName v s =
     (case editUser s of
        Some edited \<Rightarrow> s\<lparr>editUser := Some (edited\<lparr>fullName := v\<rparr>)\<rparr>
      | None \<Rightarrow> s\<lparr>newUser := (newUser s)\<lparr>fullName := v\<rparr>\<rparr>)"

definition onChangeEmail :: "string \<Rightarrow> component \<Rightarrow> component" where
  "onChangeEmail v s =
     (case editUser s of
        Some edited \<Rightarrow> s\<lparr>editUser := Some (edited\<lparr>email := v\<rparr>)\<rparr>
      | None \<Rightarrow> s\<lparr>newUser := (newUser s)\<lparr>email := v\<rparr>\<rparr>)"

definition onChangeMobileNumber :: "string \<Rightarrow> component \<Rightarrow> component" where
  "onChangeMobileNumber v s =
     (case editUser s of
        Some edited \<Rightarrow> s\<lparr>editUser := Some (edited\<lparr>mobileNumber := v\<rparr>)\<rparr>
      | None \<Rightarrow> s\<lparr>newUser := (newUser s)\<lparr>mobileNumber := v\<rparr>\<rparr>)"

subsection \<open>Runs of the component\<close>

text \<open>
  Everything that can happen to the mounted component: the fetch of the mount effect
  and the handlers bound in the rendered tree, each with the outcomes of its requests.
\<close>

datatype event =
    FetchUsers "User list outcome"
  | CreateUser "unit outcome" "User list outcome"
  | UpdateUser "unit outcome" "User list outcome"
  | DeleteUser int "unit outcome" "User list outcome"
  | EditClick User
  | AddClick
  | CancelClick
  | SearchChange string
  | SortChange string
  | ChangeFullName string
  | ChangeEmail string
  | ChangeMobileNumber string

fun dispatch :: "(int \<Rightarrow> string) \<Rightarrow> event \<Rightarrow> component \<Rightarrow> component \<times> effect list" where
  "dispatch exponent (FetchUsers g) s = fetchUsers g s"
| "dispatch exponent (CreateUser p g) s = createUser p g s"
| "dispatch exponent (UpdateUser p g) s = updateUser exponent p g s"
| "dispatch exponent (DeleteUser k d g) s = deleteUser exponent k d g s"
| "dispatch exponent (EditClick u) s = (handleEditClick u s, [])"
| "dispatch exponent AddClick s = (handleAddClick s, [])"
| "dispatch exponent CancelClick s = (handleCancelClick s, [])"
| "dispatch exponent (SearchChange v) s = (handleSearchChange v s, [])"
| "dispatch exponent (SortChange v) s = (handleSortChange v s, [])"
| "dispatch exponent (ChangeFullName v) s = (onChangeFullName v s, [])"
| "dispatch exponent (ChangeEmail v) s = (onChangeEmail v s, [])"
| "dispatch exponent (ChangeMobileNumber v) s = (onChangeMobileNumber v s, [])"

fun run :: "(int \<Rightarrow> string) \<Rightarrow> event list \<Rightarrow> component \<Rightarrow> component" where
  "run exponent [] s = s"
| "run exponent (ev # evs) s = run exponent evs (fst (dispatch exponent ev s))"

text \<open>The paths a handler navigated to, in order.\<close>

fun navigations :: "effect list \<Rightarrow> string list" where
  "navigations [] = []"
| "navigations (RouterPush p # fx) = p # navigations fx"
| "navigations (_ # fx) = navigations fx"

text \<open>A list fetch that was answered with status 401.\<close>

fun unauthorized :: "'a outcome \<Rightarrow> bool" where
  "unauthorized (Resolved _) = False"
| "unauthorized (Rejected error) = (response_status error = Some 401)"

text \<open>The requests a handler sent, in order.\<close>

fun requests :: "effect list \<Rightarrow> (http_method \<times> string \<times> User option) list" where
  "requests [] = []"
| "requests (Request m u b # fx) = (m, u, b) # requests fx"
| "requests (_ # fx) = requests fx"

subsection \<open>Example data\<close>

text \<open>
  Two users and the ASCII instances above, for the concrete runs, and an exponent
  notation that is right at the number 1e21; the runs with smaller ids never call it.
\<close>

definition exponent_1e21 :: "int \<Rightarrow> string" where
  "exponent_1e21 i = ''1e+21''"

definition bob :: User where
  "bob = \<lparr>id_field = 1, fullName = ''Bob'', mobileNumber = ''555-0100'',
           email = ''bob@example.org'', roles = ''admin''\<rparr>"

definition alice :: User where
  "alice = \<lparr>id_field = 42, fullName = ''Alice'', mobileNumber = ''555-0101'',
             email = ''alice@example.org'', roles = ''operator''\<rparr>"

section \<open>Properties of the built-in operations\<close>

subsection \<open>Decimal numerals\<close>

















lemma number_toString_exponent:
  "\<not> \<bar>i\<bar> < 1000000000000000000000 \<Longrightarrow> number_toString exponent i = exponent i"
  by (simp add: number_toString_def)




lemma number_toString_42: "number_toString exponent 42 = ''42''"
  by (simp add: number_toString_def decimal_of_int_def digits_of_nat.simps)





subsection \<open>Substring test and sorting\<close>

lemma includes_str_sublist: "includes_str s q \<longleftrightarrow> sublist q s"
  by (induction s) (simp_all add: sublist_Cons_right)

lemma set_insert_cmp: "set (insert_cmp cmp x ys) = insert x (set ys)"
  by (induction ys) auto

lemma mset_insert_cmp: "mset (insert_cmp cmp x ys) = add_mset x (mset ys)"
  by (induction ys) auto

lemma mset_sort_cmp: "mset (sort_cmp cmp xs) = mset xs"
  by (induction xs) (simp_all add: sort_cmp_def mset_insert_cmp)

lemma set_sort_cmp: "set (sort_cmp cmp xs) = set xs"
  by (induction xs) (simp_all add: sort_cmp_def set_insert_cmp)

lemma consistent_flip: "consistent_comparator cmp \<Longrightarrow> 0 < cmp x y \<Longrightarrow> cmp y x \<le> 0"
  unfolding consistent_comparator_def by (metis less_le_not_le linorder_not_less)

lemma consistent_trans:
  "consistent_comparator cmp \<Longrightarrow> cmp x y \<le> 0 \<Longrightarrow> cmp y z \<le> 0 \<Longrightarrow> cmp x z \<le> 0"
  unfolding consistent_comparator_def by blast

lemma sorted_insert_cmp:
  assumes "consistent_comparator cmp" "sorted_wrt (\<lambda>a b. cmp a b \<le> 0) ys"
  shows "sorted_wrt (\<lambda>a b. cmp a b \<le> 0) (insert_cmp cmp x ys)"
  using assms(2)
proof (induction ys)
  case Nil
  then show ?case by simp
next
  case (Cons y ys)
  show ?case
  proof (cases "cmp x y \<le> 0")
    case True
    have "\<forall>z\<in>set ys. cmp x z \<le> 0"
      using Cons.prems True consistent_trans [OF assms(1)] by auto
    with True Cons.prems show ?thesis by simp
  next
    case False
    then have "cmp y x \<le> 0" using consistent_flip [OF assms(1)] by simp
    with False Cons show ?thesis by (auto simp: set_insert_cmp)
  qed
qed

lemma sorted_sort_cmp:
  "consistent_comparator cmp \<Longrightarrow> sorted_wrt (\<lambda>a b. cmp a b \<le> 0) (sort_cmp cmp xs)"
  by (induction xs) (simp_all add: sort_cmp_def sorted_insert_cmp)

lemma consistent_equiv_le:
  assumes "consistent_comparator cmp" "cmp k x = 0" "cmp k y = 0"
  shows "cmp x y \<le> 0"
proof -
  have "cmp x k \<le> 0" using assms(1,2) unfolding consistent_comparator_def
    by (metis less_le_not_le linorder_not_less order_refl)
  then show ?thesis using consistent_trans [OF assms(1), of x k y] assms(3) by simp
qed

lemma filter_insert_cmp_equiv:
  assumes "consistent_comparator cmp" "cmp k x = 0"
  shows "filter (\<lambda>y. cmp k y = 0) (insert_cmp cmp x ys) = x # filter (\<lambda>y. cmp k y = 0) ys"
proof (induction ys)
  case Nil
  then show ?case using assms(2) by simp
next
  case (Cons y ys)
  show ?case
  proof (cases "cmp x y \<le> 0")
    case True
    then show ?thesis using assms(2) by simp
  next
    case False
    then have "cmp k y \<noteq> 0" using consistent_equiv_le [OF assms] by blast
    with False Cons show ?thesis by simp
  qed
qed

lemma filter_insert_cmp_other:
  "\<not> P x \<Longrightarrow> filter P (insert_cmp cmp x ys) = filter P ys"
  by (induction ys) auto

lemma stable_sort_cmp:
  assumes "consistent_comparator cmp"
  shows "filter (\<lambda>y. cmp k y = 0) (sort_cmp cmp xs) = filter (\<lambda>y. cmp k y = 0) xs"
proof (induction xs)
  case Nil
  then show ?case by (simp add: sort_cmp_def)
next
  case (Cons x xs)
  then have IH: "filter (\<lambda>y. cmp k y = 0) (foldr (insert_cmp cmp) xs []) = filter (\<lambda>y. cmp k y = 0) xs"
    by (simp add: sort_cmp_def)
  show ?case
  proof (cases "cmp k x = 0")
    case True
    then show ?thesis
      using filter_insert_cmp_equiv [OF assms True] IH by (simp add: sort_cmp_def)
  next
    case False
    then show ?thesis
      using filter_insert_cmp_other [of "\<lambda>y. cmp k y = 0" x cmp] IH by (simp add: sort_cmp_def)
  qed
qed

text \<open>
  The sorted and stable list is the only one: whatever algorithm an engine runs, for a
  consistent comparator it returns what \<open>sort_cmp\<close> returns.
\<close>

lemma consistent_refl:
  assumes "consistent_comparator cmp"
  shows "cmp x x = 0"
proof -
  have "(cmp x x < 0) = (0 < cmp x x)"
    using assms unfolding consistent_comparator_def by blast
  then show ?thesis by arith
qed

lemma consistent_both_le:
  assumes "consistent_comparator cmp" "cmp x y \<le> 0" "cmp y x \<le> 0"
  shows "cmp x y = 0"
proof (rule ccontr)
  assume "cmp x y \<noteq> 0"
  with assms(2) have "cmp x y < 0" by simp
  with assms(1) have "0 < cmp y x" unfolding consistent_comparator_def by blast
  with assms(3) show False by simp
qed

lemma stable_sorted_unique:
  assumes cons: "consistent_comparator cmp"
    and "sorted_wrt (\<lambda>a b. cmp a b \<le> 0) ys"
    and "sorted_wrt (\<lambda>a b. cmp a b \<le> 0) zs"
    and "\<forall>k. filter (\<lambda>y. cmp k y = 0) ys = filter (\<lambda>y. cmp k y = 0) zs"
  shows "ys = zs"
  using assms(2-4)
proof (induction ys arbitrary: zs)
  case Nil
  show ?case
  proof (cases zs)
    case Nil
    then show ?thesis by simp
  next
    case (Cons z zs')
    have "filter (\<lambda>y. cmp z y = 0) [] = filter (\<lambda>y. cmp z y = 0) zs"
      using Nil.prems(3) by blast
    then show ?thesis using Cons consistent_refl [OF cons, of z] by simp
  qed
next
  case (Cons y ys')
  have yy: "cmp y y = 0" by (rule consistent_refl [OF cons])
  have fy: "filter (\<lambda>a. cmp y a = 0) (y # ys') = filter (\<lambda>a. cmp y a = 0) zs"
    using Cons.prems(3) by blast
  then obtain z zs' where zs: "zs = z # zs'"
    using yy by (cases zs) simp_all
  have zz: "cmp z z = 0" by (rule consistent_refl [OF cons])
  have fz: "filter (\<lambda>a. cmp z a = 0) (y # ys') = filter (\<lambda>a. cmp z a = 0) (z # zs')"
    using Cons.prems(3) zs by blast
  have "z \<in> set (filter (\<lambda>a. cmp z a = 0) (z # zs'))"
    using zz by simp
  then have "z \<in> set (filter (\<lambda>a. cmp z a = 0) (y # ys'))"
    by (simp only: fz)
  then have "z \<in> set (y # ys') \<and> cmp z z = 0"
    by (simp only: set_filter mem_Collect_eq)
  then have zin: "z = y \<or> z \<in> set ys'" by simp
  have ymin: "\<forall>a\<in>set ys'. cmp y a \<le> 0"
    using Cons.prems(1) by simp
  have yz: "cmp y z \<le> 0"
    using zin ymin yy by auto
  have "y \<in> set (filter (\<lambda>a. cmp y a = 0) (y # ys'))"
    using yy by simp
  then have "y \<in> set (filter (\<lambda>a. cmp y a = 0) zs)"
    by (simp only: fy)
  then have "y \<in> set zs \<and> cmp y y = 0"
    by (simp only: set_filter mem_Collect_eq)
  then have yin: "y = z \<or> y \<in> set zs'" unfolding zs by simp
  have zmin: "\<forall>a\<in>set zs'. cmp z a \<le> 0"
    using Cons.prems(2) unfolding zs by simp
  have zy: "cmp z y \<le> 0"
    using yin zmin zz by auto
  have yz0: "cmp y z = 0" by (rule consistent_both_le [OF cons yz zy])
  have "y # filter (\<lambda>a. cmp y a = 0) ys' = z # filter (\<lambda>a. cmp y a = 0) zs'"
    using fy unfolding zs by (auto simp: yy yz0)
  then have head: "y = z" by simp
  have tails: "\<forall>k. filter (\<lambda>a. cmp k a = 0) ys' = filter (\<lambda>a. cmp k a = 0) zs'"
  proof
    fix k
    have "filter (\<lambda>a. cmp k a = 0) (y # ys') = filter (\<lambda>a. cmp k a = 0) zs"
      using Cons.prems(3) by blast
    then have "filter (\<lambda>a. cmp k a = 0) (y # ys') = filter (\<lambda>a. cmp k a = 0) (y # zs')"
      unfolding zs head .
    then show "filter (\<lambda>a. cmp k a = 0) ys' = filter (\<lambda>a. cmp k a = 0) zs'"
      by (cases "cmp k y = 0") simp_all
  qed
  have s1: "sorted_wrt (\<lambda>a b. cmp a b \<le> 0) ys'"
    using Cons.prems(1) by simp
  have s2: "sorted_wrt (\<lambda>a b. cmp a b \<le> 0) zs'"
    using Cons.prems(2) unfolding zs by simp
  have "ys' = zs'"
    by (rule Cons.IH [OF s1 s2 tails])
  then show ?case unfolding zs head by simp
qed

lemma sort_cmp_unique:
  assumes "consistent_comparator cmp"
    and "sorted_wrt (\<lambda>a b. cmp a b \<le> 0) ys"
    and "\<forall>k. filter (\<lambda>y. cmp k y = 0) ys = filter (\<lambda>y. cmp k y = 0) xs"
  shows "ys = sort_cmp cmp xs"
proof (rule stable_sorted_unique [OF assms(1,2) sorted_sort_cmp [OF assms(1)]])
  show "\<forall>k. filter (\<lambda>y. cmp k y = 0) ys = filter (\<lambda>y. cmp k y = 0) (sort_cmp cmp xs)"
  proof
    fix k
    have "filter (\<lambda>y. cmp k y = 0) ys = filter (\<lambda>y. cmp k y = 0) xs"
      using assms(3) by blast
    then show "filter (\<lambda>y. cmp k y = 0) ys = filter (\<lambda>y. cmp k y = 0) (sort_cmp cmp xs)"
      by (simp only: stable_sort_cmp [OF assms(1)])
  qed
qed

subsection \<open>Reading properties and comparing users\<close>

lemma user_object_fullName: "user_object u ''fullName'' = Some (JString (fullName u))"
  by (simp add: user_object_def)

lemma user_object_email: "user_object u ''email'' = Some (JString (email u))"
  by (simp add: user_object_def)

lemma user_object_id: "user_object u ''id'' = Some (JNumber (id_field u))"
  by (simp add: user_object_def)

lemma dom_user_object:
  "dom (user_object u) = {''id'', ''fullName'', ''mobileNumber'', ''email'', ''roles''}"
  by (auto simp: user_object_def)

lemma compareUsers_fullName:
  "field so = ''fullName'' \<Longrightarrow>
   compareUsers lc so a b =
     (if order so = Some ''asc'' then lc (fullName a) (fullName b) else lc (fullName b) (fullName a))"
  by (simp add: compareUsers_def user_object_fullName)

lemma compareUsers_email:
  "field so = ''email'' \<Longrightarrow>
   compareUsers lc so a b =
     (if order so = Some ''asc'' then lc (email a) (email b) else lc (email b) (email a))"
  by (simp add: compareUsers_def user_object_email)

lemma consistent_on_key:
  assumes "consistent_comparator lc"
  shows "consistent_comparator (\<lambda>a b. lc (key a) (key b))"
    and "consistent_comparator (\<lambda>a b. lc (key b) (key a))"
  using assms unfolding consistent_comparator_def by blast+

lemma consistent_compareUsers:
  assumes "consistent_comparator lc"
    and "(field so = ''fullName'' \<and> key = fullName) \<or> (field so = ''email'' \<and> key = email)"
  shows "compareUsers lc so =
           (if order so = Some ''asc'' then (\<lambda>a b. lc (key a) (key b)) else (\<lambda>a b. lc (key b) (key a)))"
    and "consistent_comparator (compareUsers lc so)"
proof -
  show eq: "compareUsers lc so =
           (if order so = Some ''asc'' then (\<lambda>a b. lc (key a) (key b)) else (\<lambda>a b. lc (key b) (key a)))"
    using assms(2) by (auto simp: fun_eq_iff compareUsers_fullName compareUsers_email)
  show "consistent_comparator (compareUsers lc so)"
    unfolding eq using consistent_on_key [OF assms(1), of key] by simp
qed

lemma consistent_zero_sym:
  "consistent_comparator cmp \<Longrightarrow> (cmp x y = 0) = (cmp y x = 0)"
  unfolding consistent_comparator_def by (metis less_le_not_le linorder_neqE_linordered_idom order_refl)

subsection \<open>The ASCII collation is a consistent comparator\<close>

lemma codes_compare_flip: "(codes_compare xs ys < 0) = (0 < codes_compare ys xs)"
  by (induction xs ys rule: codes_compare.induct) auto

lemma codes_compare_Cons_le:
  "codes_compare (x # xs) (y # ys) \<le> 0 \<longleftrightarrow> x < y \<or> (x = y \<and> codes_compare xs ys \<le> 0)"
  by auto

lemma codes_compare_trans:
  "codes_compare xs ys \<le> 0 \<Longrightarrow> codes_compare ys zs \<le> 0 \<Longrightarrow> codes_compare xs zs \<le> 0"
proof (induction xs arbitrary: ys zs)
  case Nil
  then show ?case by (cases zs) simp_all
next
  case (Cons x xs)
  from Cons.prems(1) obtain y ys' where ys: "ys = y # ys'"
    by (cases ys) simp_all
  from Cons.prems(2) ys obtain z zs' where zs: "zs = z # zs'"
    by (cases zs) simp_all
  have xy: "x < y \<or> (x = y \<and> codes_compare xs ys' \<le> 0)"
    using Cons.prems(1) unfolding ys codes_compare_Cons_le .
  have yz: "y < z \<or> (y = z \<and> codes_compare ys' zs' \<le> 0)"
    using Cons.prems(2) unfolding ys zs codes_compare_Cons_le .
  have "x < z \<or> (x = z \<and> codes_compare xs zs' \<le> 0)"
    using xy yz Cons.IH [of ys' zs'] by auto
  then show ?case unfolding zs codes_compare_Cons_le .
qed

lemma consistent_ascii_localeCompare: "consistent_comparator ascii_localeCompare"
  unfolding consistent_comparator_def ascii_localeCompare_def
  using codes_compare_flip codes_compare_trans by blast

section \<open>The derived list\<close>

text \<open>
  C1. Filtering: a user is in \<^verbatim>\<open>filteredUser\<close> exactly when it is in \<^verbatim>\<open>users\<close> and
  the lower-cased query is a contiguous substring of its lower-cased \<^verbatim>\<open>fullName\<close> or
  of its lower-cased \<^verbatim>\<open>email\<close>, whatever the case mapping, the collation and the sort
  setting are; it is there as many times as in \<^verbatim>\<open>users\<close>.
\<close>

theorem filteredUser_iff_query_substring:
  "(u \<in> set (filteredUser toLowerCase localeCompare s) \<longleftrightarrow>
      u \<in> set (users s) \<and>
      (sublist (toLowerCase (searchQuery s)) (toLowerCase (fullName u)) \<or>
       sublist (toLowerCase (searchQuery s)) (toLowerCase (email u)))) \<and>
   count_list (filteredUser toLowerCase localeCompare s) u =
     (if sublist (toLowerCase (searchQuery s)) (toLowerCase (fullName u)) \<or>
         sublist (toLowerCase (searchQuery s)) (toLowerCase (email u))
      then count_list (users s) u else 0)"
proof -
  let ?P = "matchesQuery toLowerCase (searchQuery s)"
  have P: "?P u \<longleftrightarrow>
      sublist (toLowerCase (searchQuery s)) (toLowerCase (fullName u)) \<or>
      sublist (toLowerCase (searchQuery s)) (toLowerCase (email u))"
    by (simp add: matchesQuery_def includes_str_sublist Let_def)
  have "mset (filteredUser toLowerCase localeCompare s) = filter_mset ?P (mset (users s))"
    by (simp add: filteredUser_def mset_sort_cmp)
  then have "count_list (filteredUser toLowerCase localeCompare s) u =
      count (filter_mset ?P (mset (users s))) u"
    by (metis count_mset)
  then have c: "count_list (filteredUser toLowerCase localeCompare s) u =
      (if ?P u then count_list (users s) u else 0)"
    by (simp add: count_mset)
  have m: "u \<in> set (filteredUser toLowerCase localeCompare s) \<longleftrightarrow> u \<in> set (users s) \<and> ?P u"
    by (simp add: filteredUser_def set_sort_cmp)
  show ?thesis using c m P by simp
qed

text \<open>The query \<^verbatim>\<open>ALI\<close> on Bob and Alice keeps Alice and drops Bob.\<close>

theorem filteredUser_iff_query_substring_witness:
  "alice \<in> set (filteredUser ascii_toLowerCase ascii_localeCompare
            (initialState\<lparr>users := [bob, alice], searchQuery := ''ALI''\<rparr>)) \<and>
   bob \<notin> set (filteredUser ascii_toLowerCase ascii_localeCompare
            (initialState\<lparr>users := [bob, alice], searchQuery := ''ALI''\<rparr>))"
  using filteredUser_iff_query_substring [of alice ascii_toLowerCase ascii_localeCompare
          "initialState\<lparr>users := [bob, alice], searchQuery := ''ALI''\<rparr>"]
        filteredUser_iff_query_substring [of bob ascii_toLowerCase ascii_localeCompare
          "initialState\<lparr>users := [bob, alice], searchQuery := ''ALI''\<rparr>"]
  by (simp add: initialState_def bob_def alice_def ascii_toLowerCase_def ascii_lower_char_def
        sublist_code prefix_code)

text \<open>
  C2. Sorting: for a collation that is a consistent comparator and a sort field
  \<^verbatim>\<open>fullName\<close> or \<^verbatim>\<open>email\<close>, \<^verbatim>\<open>filteredUser\<close> is a permutation of the
  users that pass the filter, ordered by that field (ascending for the order
  \<^verbatim>\<open>asc\<close>, descending otherwise), and stable: the users whose field compares
  equal to any given string keep the order they have in \<^verbatim>\<open>users\<close>. With Bob before
  Alice in \<^verbatim>\<open>users\<close>, an empty query and \<^verbatim>\<open>fullName-asc\<close>, the list is Alice, Bob.
\<close>

theorem filteredUser_stable_sorted:
  assumes "consistent_comparator localeCompare"
    and "(field (sortOrder s) = ''fullName'' \<and> key = fullName) \<or>
         (field (sortOrder s) = ''email'' \<and> key = email)"
  shows "mset (filteredUser toLowerCase localeCompare s) =
           mset (filter (matchesQuery toLowerCase (searchQuery s)) (users s)) \<and>
         (order (sortOrder s) = Some ''asc'' \<longrightarrow>
            sorted_wrt (\<lambda>a b. localeCompare (key a) (key b) \<le> 0)
              (filteredUser toLowerCase localeCompare s)) \<and>
         (order (sortOrder s) \<noteq> Some ''asc'' \<longrightarrow>
            sorted_wrt (\<lambda>a b. localeCompare (key b) (key a) \<le> 0)
              (filteredUser toLowerCase localeCompare s)) \<and>
         (\<forall>k. filter (\<lambda>u. localeCompare k (key u) = 0) (filteredUser toLowerCase localeCompare s) =
              filter (\<lambda>u. localeCompare k (key u) = 0)
                (filter (matchesQuery toLowerCase (searchQuery s)) (users s))) \<and>
         (users s = [b, a] \<and> fullName b = ''Bob'' \<and> fullName a = ''Alice'' \<and>
          0 < localeCompare ''Bob'' ''Alice'' \<and> searchQuery s = [] \<and> toLowerCase [] = [] \<and>
          sortOrder s = \<lparr>field = ''fullName'', order = Some ''asc''\<rparr> \<longrightarrow>
            filteredUser toLowerCase localeCompare s = [a, b])"
proof -
  let ?cmp = "compareUsers localeCompare (sortOrder s)"
  let ?in = "filter (matchesQuery toLowerCase (searchQuery s)) (users s)"
  let ?out = "filteredUser toLowerCase localeCompare s"
  have out: "?out = sort_cmp ?cmp ?in"
    by (simp add: filteredUser_def)
  have cmp_eq: "?cmp = (if order (sortOrder s) = Some ''asc''
                        then (\<lambda>a b. localeCompare (key a) (key b))
                        else (\<lambda>a b. localeCompare (key b) (key a)))"
    by (rule consistent_compareUsers(1) [OF assms])
  have cons: "consistent_comparator ?cmp"
    by (rule consistent_compareUsers(2) [OF assms])
  have perm: "mset ?out = mset ?in"
    by (simp add: out mset_sort_cmp)
  have sorted: "sorted_wrt (\<lambda>a b. ?cmp a b \<le> 0) ?out"
    unfolding out by (rule sorted_sort_cmp [OF cons])
  have asc: "order (sortOrder s) = Some ''asc'' \<longrightarrow>
      sorted_wrt (\<lambda>a b. localeCompare (key a) (key b) \<le> 0) ?out"
  proof
    assume "order (sortOrder s) = Some ''asc''"
    then have "?cmp = (\<lambda>a b. localeCompare (key a) (key b))" by (simp add: cmp_eq)
    with sorted show "sorted_wrt (\<lambda>a b. localeCompare (key a) (key b) \<le> 0) ?out" by simp
  qed
  have desc: "order (sortOrder s) \<noteq> Some ''asc'' \<longrightarrow>
      sorted_wrt (\<lambda>a b. localeCompare (key b) (key a) \<le> 0) ?out"
  proof
    assume "order (sortOrder s) \<noteq> Some ''asc''"
    then have "?cmp = (\<lambda>a b. localeCompare (key b) (key a))" by (simp add: cmp_eq)
    with sorted show "sorted_wrt (\<lambda>a b. localeCompare (key b) (key a) \<le> 0) ?out" by simp
  qed
  have stable: "filter (\<lambda>u. localeCompare k (key u) = 0) ?out =
      filter (\<lambda>u. localeCompare k (key u) = 0) ?in" for k
  proof -
    define w where "w = emptyUser\<lparr>fullName := k, email := k\<rparr>"
    have kw: "key w = k"
      using assms(2) by (auto simp: w_def)
    have same: "(?cmp w u = 0) = (localeCompare k (key u) = 0)" for u
      using consistent_zero_sym [OF assms(1), of "key u" k] by (simp add: cmp_eq kw)
    have "filter (\<lambda>u. ?cmp w u = 0) ?out = filter (\<lambda>u. ?cmp w u = 0) ?in"
      unfolding out by (rule stable_sort_cmp [OF cons])
    then show ?thesis by (simp only: same)
  qed
  have example: "users s = [b, a] \<and> fullName b = ''Bob'' \<and> fullName a = ''Alice'' \<and>
          0 < localeCompare ''Bob'' ''Alice'' \<and> searchQuery s = [] \<and> toLowerCase [] = [] \<and>
          sortOrder s = \<lparr>field = ''fullName'', order = Some ''asc''\<rparr> \<longrightarrow> ?out = [a, b]"
    by (simp add: filteredUser_def matchesQuery_def includes_str_sublist sort_cmp_def
          compareUsers_fullName)
  from perm asc desc stable example show ?thesis by (intro conjI allI)
qed

text \<open>The ASCII collation on Bob and Alice, sorted by name ascending.\<close>

theorem filteredUser_stable_sorted_witness:
  "consistent_comparator ascii_localeCompare \<and>
   filteredUser ascii_toLowerCase ascii_localeCompare (initialState\<lparr>users := [bob, alice]\<rparr>)
     = [alice, bob] \<and>
   sorted_wrt (\<lambda>a b. ascii_localeCompare (fullName a) (fullName b) \<le> 0)
     (filteredUser ascii_toLowerCase ascii_localeCompare (initialState\<lparr>users := [bob, alice]\<rparr>))"
proof -
  let ?s = "initialState\<lparr>users := [bob, alice]\<rparr>"
  have f: "(field (sortOrder ?s) = ''fullName'' \<and> fullName = fullName) \<or>
           (field (sortOrder ?s) = ''email'' \<and> fullName = email)"
    by (simp add: initialState_def)
  have o: "order (sortOrder ?s) = Some ''asc''"
    by (simp add: initialState_def)
  have e: "users ?s = [bob, alice] \<and> fullName bob = ''Bob'' \<and> fullName alice = ''Alice'' \<and>
      0 < ascii_localeCompare ''Bob'' ''Alice'' \<and> searchQuery ?s = [] \<and>
      ascii_toLowerCase [] = [] \<and> sortOrder ?s = \<lparr>field = ''fullName'', order = Some ''asc''\<rparr>"
    by (simp add: initialState_def bob_def alice_def ascii_localeCompare_def
          ascii_toLowerCase_def ascii_lower_char_def)
  show ?thesis
    using filteredUser_stable_sorted [OF consistent_ascii_localeCompare f,
            of ascii_toLowerCase bob alice] o e consistent_ascii_localeCompare
    by blast
qed

section \<open>The handlers, outcome by outcome\<close>

lemma fetchUsers_Resolved:
  "fetchUsers (Resolved data) s = (s\<lparr>users := data\<rparr>, [Request GET ''/users'' None])"
  by (simp add: fetchUsers_def apiUrl_def)

lemma fetchUsers_Rejected:
  "fetchUsers (Rejected e) s =
     (s, [Request GET ''/users'' None, ConsoleError ''Error fetching users:'' e] @
         (if response_status e = Some 401 then [RouterPush ''/login''] else []))"
  by (simp add: fetchUsers_def apiUrl_def)

lemma requests_fetchUsers: "requests (snd (fetchUsers g s)) = [(GET, ''/users'', None)]"
  by (cases g) (simp_all add: fetchUsers_Resolved fetchUsers_Rejected)

lemma navigations_fetchUsers:
  "navigations (snd (fetchUsers g s)) = (if unauthorized g then [''/login''] else [])"
  by (cases g) (simp_all add: fetchUsers_Resolved fetchUsers_Rejected)

lemma fetchUsers_state:
  "fst (fetchUsers g s) = (case g of Resolved data \<Rightarrow> s\<lparr>users := data\<rparr> | Rejected _ \<Rightarrow> s)"
  by (cases g) (simp_all add: fetchUsers_Resolved fetchUsers_Rejected)

lemma createUser_Resolved:
  "createUser (Resolved x) g s =
     ((fst (fetchUsers g (s\<lparr>newUser := emptyUser\<rparr>)))\<lparr>showForm := False\<rparr>,
      Request POST ''/users'' (Some (newUser s)) # snd (fetchUsers g (s\<lparr>newUser := emptyUser\<rparr>)))"
  by (simp add: createUser_def apiUrl_def split_beta Let_def)

lemma createUser_Rejected:
  "createUser (Rejected e) g s =
     (s, [Request POST ''/users'' (Some (newUser s)), ConsoleError ''Error creating user:'' e])"
  by (simp add: createUser_def apiUrl_def)

lemma updateUser_None: "editUser s = None \<Longrightarrow> updateUser exponent p g s = (s, [])"
  by (simp add: updateUser_def)

lemma updateUser_Resolved:
  "editUser s = Some u \<Longrightarrow>
   updateUser exponent (Resolved x) g s =
     ((fst (fetchUsers g (s\<lparr>editUser := None\<rparr>)))\<lparr>showForm := False\<rparr>,
      Request PUT (''/users/'' @ number_toString exponent (id_field u)) (Some u) #
        snd (fetchUsers g (s\<lparr>editUser := None\<rparr>)))"
  by (simp add: updateUser_def apiUrl_def split_beta Let_def)

lemma updateUser_Rejected:
  "editUser s = Some u \<Longrightarrow>
   updateUser exponent (Rejected e) g s =
     (s, [Request PUT (''/users/'' @ number_toString exponent (id_field u)) (Some u),
          ConsoleError ''Error updating user:'' e])"
  by (simp add: updateUser_def apiUrl_def Let_def)

lemma deleteUser_Resolved:
  "deleteUser exponent k (Resolved x) g s =
     (fst (fetchUsers g s),
      Request DELETE (''/users/'' @ number_toString exponent k) None # snd (fetchUsers g s))"
  by (simp add: deleteUser_def apiUrl_def split_beta Let_def)

lemma deleteUser_Rejected:
  "deleteUser exponent k (Rejected e) g s =
     (s, [Request DELETE (''/users/'' @ number_toString exponent k) None,
          ConsoleError ''Error deleting user:'' e])"
  by (simp add: deleteUser_def apiUrl_def Let_def)

lemma dispatch_draft_id:
  assumes draft: "id_field (newUser s) = 0"
  shows "id_field (newUser (fst (dispatch exponent ev s))) = 0"
proof (cases ev)
  case (FetchUsers g)
  with draft show ?thesis by (simp add: fetchUsers_state split: outcome.splits) 
next
  case (CreateUser p g)
  with draft show ?thesis
    by (cases p) (simp_all add: createUser_Resolved createUser_Rejected fetchUsers_state
          emptyUser_def split: outcome.splits)
next
  case (UpdateUser p g)
  show ?thesis
  proof (cases "editUser s")
    case None
    with draft show ?thesis using UpdateUser by (simp add: updateUser_None)
  next
    case (Some u)
    with draft show ?thesis using UpdateUser
      by (cases p) (simp_all add: updateUser_Resolved updateUser_Rejected fetchUsers_state
            split: outcome.splits)
  qed
next
  case (DeleteUser k d g)
  with draft show ?thesis
    by (cases d) (simp_all add: deleteUser_Resolved deleteUser_Rejected fetchUsers_state
          split: outcome.splits)
next
  case (EditClick u)
  with draft show ?thesis by (simp add: handleEditClick_def)
next
  case AddClick
  with draft show ?thesis by (simp add: handleAddClick_def)
next
  case CancelClick
  with draft show ?thesis by (simp add: handleCancelClick_def emptyUser_def)
next
  case (SearchChange v)
  with draft show ?thesis by (simp add: handleSearchChange_def)
next
  case (SortChange v)
  with draft show ?thesis by (simp add: handleSortChange_def split: list.splits)
next
  case (ChangeFullName v)
  with draft show ?thesis by (simp add: onChangeFullName_def split: option.splits)
next
  case (ChangeEmail v)
  with draft show ?thesis by (simp add: onChangeEmail_def split: option.splits)
next
  case (ChangeMobileNumber v)
  with draft show ?thesis by (simp add: onChangeMobileNumber_def split: option.splits)
qed

lemma run_draft_id: "id_field (newUser s) = 0 \<Longrightarrow> id_field (newUser (run exponent evs s)) = 0"
  by (induction evs arbitrary: s) (simp_all add: dispatch_draft_id)

lemma initial_draft_id: "id_field (newUser initialState) = 0"
  by (simp add: initialState_def emptyUser_def)

section \<open>Failing requests\<close>

text \<open>
  C3. A request that rejects: the handler ends with the state it started from, the error
  is written to the console, and nothing is navigated to, except that \<^verbatim>\<open>fetchUsers\<close>
  navigates to \<^verbatim>\<open>/login\<close> exactly when the status is 401. This holds for
  \<^verbatim>\<open>fetchUsers\<close>, \<^verbatim>\<open>createUser\<close>, \<^verbatim>\<open>updateUser\<close> (which sends a request only
  when a record is being edited) and \<^verbatim>\<open>deleteUser\<close>. When the request of a create,
  update or delete resolves, the only navigation is that of the list fetch that follows.
\<close>

theorem request_errors_caught_and_logged:
  "fst (fetchUsers (Rejected e) s) = s \<and>
   ConsoleError ''Error fetching users:'' e \<in> set (snd (fetchUsers (Rejected e) s)) \<and>
   navigations (snd (fetchUsers (Rejected e) s)) =
     (if response_status e = Some 401 then [''/login''] else []) \<and>
   fst (createUser (Rejected e) g s) = s \<and>
   ConsoleError ''Error creating user:'' e \<in> set (snd (createUser (Rejected e) g s)) \<and>
   navigations (snd (createUser (Rejected e) g s)) = [] \<and>
   fst (updateUser exponent (Rejected e) g s) = s \<and>
   (editUser s \<noteq> None \<longrightarrow>
      ConsoleError ''Error updating user:'' e \<in> set (snd (updateUser exponent (Rejected e) g s))) \<and>
   navigations (snd (updateUser exponent (Rejected e) g s)) = [] \<and>
   fst (deleteUser exponent k (Rejected e) g s) = s \<and>
   ConsoleError ''Error deleting user:'' e \<in> set (snd (deleteUser exponent k (Rejected e) g s)) \<and>
   navigations (snd (deleteUser exponent k (Rejected e) g s)) = [] \<and>
   navigations (snd (fetchUsers g s)) = (if unauthorized g then [''/login''] else []) \<and>
   navigations (snd (createUser (Resolved x) g s)) =
     (if unauthorized g then [''/login''] else []) \<and>
   navigations (snd (updateUser exponent (Resolved x) g s)) =
     (if editUser s \<noteq> None \<and> unauthorized g then [''/login''] else []) \<and>
   navigations (snd (deleteUser exponent k (Resolved x) g s)) =
     (if unauthorized g then [''/login''] else [])"
proof -
  have upd: "fst (updateUser exponent (Rejected e) g s) = s \<and>
      (editUser s \<noteq> None \<longrightarrow>
        ConsoleError ''Error updating user:'' e \<in> set (snd (updateUser exponent (Rejected e) g s))) \<and>
      navigations (snd (updateUser exponent (Rejected e) g s)) = []"
    by (cases "editUser s") (simp_all add: updateUser_None updateUser_Rejected)
  have upd_ok: "navigations (snd (updateUser exponent (Resolved x) g s)) =
      (if editUser s \<noteq> None \<and> unauthorized g then [''/login''] else [])"
    by (cases "editUser s") (simp_all add: updateUser_None updateUser_Resolved navigations_fetchUsers)
  have fetch: "fst (fetchUsers (Rejected e) s) = s \<and>
      ConsoleError ''Error fetching users:'' e \<in> set (snd (fetchUsers (Rejected e) s)) \<and>
      navigations (snd (fetchUsers (Rejected e) s)) =
        (if response_status e = Some 401 then [''/login''] else [])"
    by (simp add: fetchUsers_Rejected)
  have create: "fst (createUser (Rejected e) g s) = s \<and>
      ConsoleError ''Error creating user:'' e \<in> set (snd (createUser (Rejected e) g s)) \<and>
      navigations (snd (createUser (Rejected e) g s)) = []"
    by (simp add: createUser_Rejected)
  have delete: "fst (deleteUser exponent k (Rejected e) g s) = s \<and>
      ConsoleError ''Error deleting user:'' e \<in> set (snd (deleteUser exponent k (Rejected e) g s)) \<and>
      navigations (snd (deleteUser exponent k (Rejected e) g s)) = []"
    by (simp add: deleteUser_Rejected)
  have create_ok: "navigations (snd (createUser (Resolved x) g s)) =
      (if unauthorized g then [''/login''] else [])"
    by (simp add: createUser_Resolved navigations_fetchUsers)
  have delete_ok: "navigations (snd (deleteUser exponent k (Resolved x) g s)) =
      (if unauthorized g then [''/login''] else [])"
    by (simp add: deleteUser_Resolved navigations_fetchUsers)
  from fetch create upd delete navigations_fetchUsers [of g s] create_ok upd_ok delete_ok
  show ?thesis by blast
qed

text \<open>A 401 on the list fetch navigates; a 401 on an update does not.\<close>

theorem request_errors_caught_and_logged_witness:
  "fetchUsers (Rejected (RequestError ''Request failed with status code 401'' (Some 401)))
     (initialState\<lparr>editUser := Some alice\<rparr>) =
     (initialState\<lparr>editUser := Some alice\<rparr>,
      [Request GET ''/users'' None,
       ConsoleError ''Error fetching users:''
         (RequestError ''Request failed with status code 401'' (Some 401)),
       RouterPush ''/login'']) \<and>
   updateUser exponent_1e21
     (Rejected (RequestError ''Request failed with status code 401'' (Some 401)) :: unit outcome)
     (Resolved [bob]) (initialState\<lparr>editUser := Some alice\<rparr>) =
     (initialState\<lparr>editUser := Some alice\<rparr>,
      [Request PUT ''/users/42'' (Some alice),
       ConsoleError ''Error updating user:''
         (RequestError ''Request failed with status code 401'' (Some 401))])"
proof -
  let ?e = "RequestError ''Request failed with status code 401'' (Some 401)"
  let ?s = "initialState\<lparr>editUser := Some alice\<rparr>"
  have ed: "editUser ?s \<noteq> None" by simp
  have f: "fetchUsers (Rejected ?e) ?s =
      (?s, [Request GET ''/users'' None, ConsoleError ''Error fetching users:'' ?e,
            RouterPush ''/login''])"
    by (simp add: fetchUsers_def apiUrl_def)
  have u: "updateUser exponent_1e21 (Rejected ?e :: unit outcome) (Resolved [bob]) ?s =
      (?s, [Request PUT ''/users/42'' (Some alice), ConsoleError ''Error updating user:'' ?e])"
    by (simp add: updateUser_def apiUrl_def Let_def alice_def number_toString_42)
  show ?thesis
    using request_errors_caught_and_logged
            [where e = ?e and s = ?s and g = "Resolved [bob]" and exponent = exponent_1e21
               and k = 0 and x = "()"] ed f u
    by blast
qed

section \<open>Create, update, delete\<close>

text \<open>
  C4, as stated (the body of the \<^verbatim>\<open>POST\<close> has no \<^verbatim>\<open>id\<close>), fails: creating from the
  initial state posts the initial draft, whose object has the property \<^verbatim>\<open>id\<close> with
  value 0.
\<close>

theorem create_body_has_id:
  "(POST, ''/users'', Some emptyUser)
     \<in> set (requests (snd (createUser (Resolved ()) (Resolved []) initialState))) \<and>
   ''id'' \<in> dom (user_object emptyUser) \<and>
   user_object emptyUser ''id'' = Some (JNumber 0)"
  by (simp add: createUser_Resolved fetchUsers_Resolved initialState_def user_object_def
        emptyUser_def)

text \<open>
  C4, amended. \<^verbatim>\<open>createUser\<close> first sends \<^verbatim>\<open>POST /users\<close> with the whole draft as
  body: all five properties, \<^verbatim>\<open>id\<close> included, holding the draft's id, which is 0 in
  every state reached from the initial one.
\<close>

theorem create_submits_whole_draft:
  "(\<exists>rest. snd (createUser posted fetched s) =
            Request POST ''/users'' (Some (newUser s)) # rest) \<and>
   dom (user_object (newUser s)) = {''id'', ''fullName'', ''mobileNumber'', ''email'', ''roles''} \<and>
   user_object (newUser s) ''id'' = Some (JNumber (id_field (newUser s))) \<and>
   user_object (newUser (run exponent evs initialState)) ''id'' = Some (JNumber 0)"
proof -
  have "\<exists>rest. snd (createUser posted fetched s) =
            Request POST ''/users'' (Some (newUser s)) # rest"
    by (cases posted) (simp_all add: createUser_Resolved createUser_Rejected)
  moreover have "user_object (newUser (run exponent evs initialState)) ''id'' = Some (JNumber 0)"
    by (simp add: user_object_id run_draft_id initial_draft_id)
  ultimately show ?thesis
    by (simp add: dom_user_object user_object_id)
qed

text \<open>A draft named Jane is posted with \<^verbatim>\<open>id\<close> 0.\<close>

theorem create_submits_whole_draft_witness:
  "snd (createUser (Rejected (RequestError ''Network Error'' None) :: unit outcome) (Resolved [])
          (onChangeFullName ''Jane'' (handleAddClick initialState))) =
     [Request POST ''/users''
        (Some \<lparr>id_field = 0, fullName = ''Jane'', mobileNumber = [], email = [], roles = []\<rparr>),
      ConsoleError ''Error creating user:'' (RequestError ''Network Error'' None)] \<and>
   user_object \<lparr>id_field = 0, fullName = ''Jane'', mobileNumber = [], email = [], roles = []\<rparr>
     ''id'' = Some (JNumber 0)"
  using create_submits_whole_draft
          [where posted = "Rejected (RequestError ''Network Error'' None) :: unit outcome"
             and fetched = "Resolved []"
             and s = "onChangeFullName ''Jane'' (handleAddClick initialState)"
             and exponent = exponent_1e21 and evs = "[]"]
  by (simp add: createUser_Rejected onChangeFullName_def handleAddClick_def initialState_def
        emptyUser_def user_object_def)

text \<open>
  C5. \<^verbatim>\<open>createUser\<close> first sends \<^verbatim>\<open>POST /users\<close> with the draft as body. When the
  request resolves, the draft is the empty record again, the form is closed, the
  requests sent are the \<^verbatim>\<open>POST\<close> and then \<^verbatim>\<open>GET /users\<close>, and \<^verbatim>\<open>users\<close> is
  what that fetch returned (unchanged when it failed); the other cells are untouched.
\<close>

theorem create_posts_draft_then_resets:
  "(\<exists>rest. snd (createUser posted fetched s) =
            Request POST ''/users'' (Some (newUser s)) # rest) \<and>
   requests (snd (createUser (Resolved x) fetched s)) =
     [(POST, ''/users'', Some (newUser s)), (GET, ''/users'', None)] \<and>
   newUser (fst (createUser (Resolved x) fetched s)) =
     \<lparr>id_field = 0, fullName = [], mobileNumber = [], email = [], roles = []\<rparr> \<and>
   showForm (fst (createUser (Resolved x) fetched s)) = False \<and>
   users (fst (createUser (Resolved x) fetched s)) =
     (case fetched of Resolved data \<Rightarrow> data | Rejected _ \<Rightarrow> users s) \<and>
   editUser (fst (createUser (Resolved x) fetched s)) = editUser s \<and>
   searchQuery (fst (createUser (Resolved x) fetched s)) = searchQuery s \<and>
   sortOrder (fst (createUser (Resolved x) fetched s)) = sortOrder s"
proof -
  have "\<exists>rest. snd (createUser posted fetched s) =
            Request POST ''/users'' (Some (newUser s)) # rest"
    by (cases posted) (simp_all add: createUser_Resolved createUser_Rejected)
  then show ?thesis
    by (cases fetched)
      (simp_all add: createUser_Resolved requests_fetchUsers fetchUsers_state emptyUser_def)
qed

text \<open>Submitting a draft named Jane: the \<^verbatim>\<open>POST\<close> carries it, the list is fetched anew.\<close>

theorem create_posts_draft_then_resets_witness:
  "createUser (Resolved ()) (Resolved [bob])
     (onChangeFullName ''Jane'' (handleAddClick initialState)) =
     (initialState\<lparr>users := [bob]\<rparr>,
      [Request POST ''/users''
         (Some \<lparr>id_field = 0, fullName = ''Jane'', mobileNumber = [], email = [], roles = []\<rparr>),
       Request GET ''/users'' None])"
proof -
  let ?s = "onChangeFullName ''Jane'' (handleAddClick initialState)"
  have d: "newUser ?s =
      \<lparr>id_field = 0, fullName = ''Jane'', mobileNumber = [], email = [], roles = []\<rparr>"
    by (simp add: onChangeFullName_def handleAddClick_def initialState_def emptyUser_def)
  have "fst (createUser (Resolved ()) (Resolved [bob]) ?s) = initialState\<lparr>users := [bob]\<rparr>"
    by (simp add: createUser_Resolved fetchUsers_Resolved onChangeFullName_def
          handleAddClick_def initialState_def)
  moreover have "snd (createUser (Resolved ()) (Resolved [bob]) ?s) =
      [Request POST ''/users'' (Some (newUser ?s)), Request GET ''/users'' None]"
    using create_posts_draft_then_resets [of "Resolved ()" "Resolved [bob]" ?s "()"]
    by (simp add: createUser_Resolved fetchUsers_Resolved)
  ultimately show ?thesis
    unfolding d by (simp add: prod_eq_iff)
qed





section \<open>The form\<close>

text \<open>
  C8. \<^verbatim>\<open>handleCancelClick\<close> sets the draft to the empty record with id 0, sets
  \<^verbatim>\<open>editUser\<close> to null and closes the form; \<^verbatim>\<open>users\<close>, \<^verbatim>\<open>searchQuery\<close> and
  \<^verbatim>\<open>sortOrder\<close> are unchanged, and it has no effect outside the state: no request.
\<close>

theorem cancel_clears_draft_and_edit:
  "newUser (handleCancelClick s) =
     \<lparr>id_field = 0, fullName = [], mobileNumber = [], email = [], roles = []\<rparr> \<and>
   editUser (handleCancelClick s) = None \<and>
   showForm (handleCancelClick s) = False \<and>
   users (handleCancelClick s) = users s \<and>
   searchQuery (handleCancelClick s) = searchQuery s \<and>
   sortOrder (handleCancelClick s) = sortOrder s \<and>
   dispatch exponent CancelClick s = (handleCancelClick s, []) \<and>
   requests (snd (dispatch exponent CancelClick s)) = []"
  by (simp add: handleCancelClick_def emptyUser_def)

text \<open>Cancelling a half-typed draft, and cancelling an edit, both give the state before.\<close>

theorem cancel_clears_draft_and_edit_witness:
  "handleCancelClick
     (onChangeFullName ''Jane'' (handleAddClick (initialState\<lparr>users := [bob, alice]\<rparr>))) =
     initialState\<lparr>users := [bob, alice]\<rparr> \<and>
   handleCancelClick (handleEditClick alice (initialState\<lparr>users := [bob, alice]\<rparr>)) =
     initialState\<lparr>users := [bob, alice]\<rparr>"
  using cancel_clears_draft_and_edit
          [of "onChangeFullName ''Jane'' (handleAddClick (initialState\<lparr>users := [bob, alice]\<rparr>))"]
  by (simp add: handleCancelClick_def handleEditClick_def handleAddClick_def
        onChangeFullName_def initialState_def)

text \<open>
  C9. The draft's id is 0: in the initial state; after any event, if it was 0 before;
  hence in every state reached from the initial one. The three form inputs leave the
  draft's id as it is, and a create that resolves leaves a draft with id 0.
\<close>

theorem draft_keeps_placeholder_id:
  "id_field (newUser initialState) = 0 \<and>
   (id_field (newUser s) = 0 \<longrightarrow> id_field (newUser (fst (dispatch exponent ev s))) = 0) \<and>
   id_field (newUser (run exponent evs initialState)) = 0 \<and>
   id_field (newUser (onChangeFullName v s)) = id_field (newUser s) \<and>
   id_field (newUser (onChangeEmail v s)) = id_field (newUser s) \<and>
   id_field (newUser (onChangeMobileNumber v s)) = id_field (newUser s) \<and>
   id_field (newUser (fst (createUser (Resolved x) fetched s))) = 0"
proof -
  have edits: "id_field (newUser (onChangeFullName v s)) = id_field (newUser s) \<and>
      id_field (newUser (onChangeEmail v s)) = id_field (newUser s) \<and>
      id_field (newUser (onChangeMobileNumber v s)) = id_field (newUser s)"
    by (simp add: onChangeFullName_def onChangeEmail_def onChangeMobileNumber_def
          split: option.splits)
  have created: "id_field (newUser (fst (createUser (Resolved x) fetched s))) = 0"
    by (cases fetched) (simp_all add: createUser_Resolved fetchUsers_state emptyUser_def)
  show ?thesis
    using edits created initial_draft_id
      run_draft_id [OF initial_draft_id, where evs = evs and exponent = exponent]
      dispatch_draft_id [where s = s and ev = ev and exponent = exponent]
    by blast
qed

text \<open>Typing a draft, a create that fails, and one more keystroke.\<close>

theorem draft_keeps_placeholder_id_witness:
  "newUser (run exponent_1e21 [AddClick, ChangeFullName ''Jane'', ChangeEmail ''jane@example.org'',
                 CreateUser (Rejected (RequestError ''Network Error'' None)) (Resolved [])]
              initialState) =
     \<lparr>id_field = 0, fullName = ''Jane'', mobileNumber = [], email = ''jane@example.org'',
      roles = []\<rparr> \<and>
   id_field (newUser (fst (dispatch exponent_1e21 (ChangeMobileNumber ''555-0102'')
      (run exponent_1e21 [AddClick, ChangeFullName ''Jane'', ChangeEmail ''jane@example.org'',
            CreateUser (Rejected (RequestError ''Network Error'' None)) (Resolved [])]
         initialState)))) = 0"
proof -
  let ?evs = "[AddClick, ChangeFullName ''Jane'', ChangeEmail ''jane@example.org'',
               CreateUser (Rejected (RequestError ''Network Error'' None)) (Resolved [])]"
  have r: "newUser (run exponent_1e21 ?evs initialState) =
      \<lparr>id_field = 0, fullName = ''Jane'', mobileNumber = [], email = ''jane@example.org'',
       roles = []\<rparr>"
    by (simp add: initialState_def emptyUser_def handleAddClick_def onChangeFullName_def
          onChangeEmail_def createUser_def)
  have i: "id_field (newUser (run exponent_1e21 ?evs initialState)) = 0"
    unfolding r by simp
  show ?thesis
    using draft_keeps_placeholder_id
            [where s = "run exponent_1e21 ?evs initialState" and exponent = exponent_1e21
               and ev = "ChangeMobileNumber ''555-0102''" and evs = ?evs and v = "[]"
               and x = "()" and fetched = "Resolved []"]
          r i
    by blast
qed

text \<open>
  C10. With \<^verbatim>\<open>editUser\<close> null, \<^verbatim>\<open>updateUser\<close> does nothing: the state is the same
  and there is no effect, so no request.
\<close>

theorem update_without_edit_is_noop:
  assumes "editUser s = None"
  shows "updateUser exponent put fetched s = (s, []) \<and>
         requests (snd (updateUser exponent put fetched s)) = [] \<and>
         fst (updateUser exponent put fetched s) = s"
  by (simp add: updateUser_None [OF assms])

text \<open>In the initial state nothing is being edited.\<close>

theorem update_without_edit_is_noop_witness:
  "editUser initialState = None \<and>
   updateUser exponent_1e21 (Resolved ()) (Resolved [bob]) initialState = (initialState, [])"
proof -
  have e: "editUser initialState = None" by (simp add: initialState_def)
  show ?thesis
    using update_without_edit_is_noop
            [OF e, where put = "Resolved ()" and fetched = "Resolved [bob]"
               and exponent = exponent_1e21] e
    by simp
qed

end
